theory Spec2Isabelle
  imports Main
begin

section \<open>Document construction in package nlp (document.go)\<close>

text \<open>
  The file \<^verbatim>\<open>nlp/document.go\<close> declares the options of the document pipeline, the
  \<^verbatim>\<open>Document\<close> with its two accessors, and the constructor \<^verbatim>\<open>NewDocument\<close>.
  The types \<^verbatim>\<open>Token\<close>, \<^verbatim>\<open>Sentence\<close>, \<^verbatim>\<open>Model\<close> and \<^verbatim>\<open>Tokenizer\<close> and the functions
  \<^verbatim>\<open>NewIterTokenizer\<close>, \<^verbatim>\<open>defaultModel\<close>, \<^verbatim>\<open>newPunktSentenceTokenizer\<close> and the
  tagger are declared elsewhere in the package. They are parameters of the development:
  the sentence type and the model type are type variables, and the functions are the
  fields of a record that every definition below takes as its first argument.
\<close>

subsection \<open>Data\<close>

text \<open>
  A Go function returns, or it panics and unwinds its callers. None of the collaborators
  has an error result, so a panic is the only way one of them can fail; \<^verbatim>\<open>NewDocument\<close>
  has no \<^verbatim>\<open>recover\<close>, so a panic of a stage is a panic of \<^verbatim>\<open>NewDocument\<close>.
\<close>

datatype panic = NilDereference | IndexOutOfRange | StagePanic string

type_synonym error = string

text \<open>
  Modelled from the spec: the declaration of \<^verbatim>\<open>Token\<close> is not in the file. A token carries
  its surface string and, once tagging ran, a part-of-speech tag; the tag of an untagged
  token is the empty string, Go's zero value.
\<close>

record Token =
  surface :: string
  pos :: string

text \<open>The interface \<^verbatim>\<open>Tokenizer\<close>: its one method \<^verbatim>\<open>Tokenize(text)\<close>.\<close>

type_synonym Tokenizer = "string \<Rightarrow> panic + Token list"

text \<open>\<^verbatim>\<open>DocOpts\<close>; the interface value \<^verbatim>\<open>Tokenizer\<close> may be nil, which is \<open>None\<close>.\<close>

record DocOpts =
  Segment :: bool
  Tag :: bool
  Tokenizer :: "Tokenizer option"

text \<open>
  \<^verbatim>\<open>Document\<close>. \<^verbatim>\<open>Model\<close> is a pointer, nil until an option or the constructor sets
  it. The pipeline is described by the values its sequences hold: \<open>tokens\<close> lists the tokens
  that the pointers of the Go field point to. Where these sequences lie in memory matters
  for the accessors only, and is described in the last subsection of the definitions.
\<close>

record ('m, 's) Document =
  Model :: "'m option"
  Text :: string
  sentences :: "'s list"
  tokens :: "Token list"

text \<open>
  The parts of the package that \<^verbatim>\<open>document.go\<close> calls: \<open>NewIterTokenizer\<close> is the value of
  \<^verbatim>\<open>NewIterTokenizer()\<close> that initialises \<^verbatim>\<open>defaultOpts\<close>, \<open>defaultModel\<close> the function of
  that name (it returns a pointer), \<open>segment t\<close> the result of
  \<^verbatim>\<open>newPunktSentenceTokenizer().segment(t)\<close>, and \<open>tag m ts\<close> the result of
  \<^verbatim>\<open>m.tagger.tag(ts)\<close> for the model \<open>m\<close>.
\<close>

record ('m, 's) collaborators =
  NewIterTokenizer :: "Tokenizer option"
  defaultModel :: "bool \<Rightarrow> 'm option"
  segment :: "string \<Rightarrow> panic + 's list"
  tag :: "'m \<Rightarrow> Token list \<Rightarrow> panic + Token list"

subsection \<open>Options\<close>

text \<open>
  A \<^verbatim>\<open>DocOpt\<close> is a closure over the argument of the function that built it. The five
  exported functions are represented by five constructors, and \<open>applyOpt\<close> runs the body
  of the closure on the document and the options it is given pointers to.
\<close>

datatype 'm DocOpt =
    UsingTokenizer "Tokenizer option"
  | WithTokenization bool
  | WithTagging bool
  | WithSegmentation bool
  | UsingModel "'m option"

fun applyOpt :: "'m DocOpt \<Rightarrow> ('m, 's) Document \<times> DocOpts \<Rightarrow> ('m, 's) Document \<times> DocOpts" where
  "applyOpt (UsingTokenizer include) (doc, opts) = (doc, opts\<lparr>Tokenizer := include\<rparr>)"
| "applyOpt (WithTokenization include) (doc, opts) =
     (if \<not> include then (doc, opts\<lparr>Tokenizer := None\<rparr>) else (doc, opts))"
| "applyOpt (WithTagging include) (doc, opts) = (doc, opts\<lparr>Tag := include\<rparr>)"
| "applyOpt (WithSegmentation include) (doc, opts) = (doc, opts\<lparr>Segment := include\<rparr>)"
| "applyOpt (UsingModel model) (doc, opts) = (doc\<lparr>Model := model\<rparr>, opts)"

subsection \<open>The accessors, on values\<close>

definition Tokens :: "('m, 's) Document \<Rightarrow> Token list" where
  "Tokens doc = foldl (\<lambda>toks tok. toks @ [tok]) [] (tokens doc)"

definition Sentences :: "('m, 's) Document \<Rightarrow> 's list" where
  "Sentences doc = sentences doc"

subsection \<open>The constructor\<close>

definition defaultOpts :: "('m, 's) collaborators \<Rightarrow> DocOpts" where
  "defaultOpts env = \<lparr>Segment = True, Tag = True, Tokenizer = NewIterTokenizer env\<rparr>"

text \<open>The first phase of \<^verbatim>\<open>NewDocument\<close>: the fresh document, a copy of the defaults, and the loop over the options.\<close>

definition configure ::
  "('m, 's) collaborators \<Rightarrow> string \<Rightarrow> 'm DocOpt list \<Rightarrow> ('m, 's) Document \<times> DocOpts" where
  "configure env text opts =
     foldl (\<lambda>state opt. applyOpt opt state)
       (\<lparr>Model = None, Text = text, sentences = [], tokens = []\<rparr>, defaultOpts env) opts"

text \<open>The three stages, each guarded as in the source.\<close>

definition segmentStage ::
  "('m, 's) collaborators \<Rightarrow> string \<Rightarrow> DocOpts \<Rightarrow> ('m, 's) Document \<Rightarrow> panic + ('m, 's) Document" where
  "segmentStage env text base doc =
     (if Segment base then
        (case segment env text of
           Inl p \<Rightarrow> Inl p
         | Inr ss \<Rightarrow> Inr (doc\<lparr>sentences := ss\<rparr>))
      else Inr doc)"

definition tokenizeStage ::
  "string \<Rightarrow> DocOpts \<Rightarrow> ('m, 's) Document \<Rightarrow> panic + ('m, 's) Document" where
  "tokenizeStage text base doc =
     (case Tokenizer base of
        Some tokenizer \<Rightarrow>
          (case tokenizer text of
             Inl p \<Rightarrow> Inl p
           | Inr ts \<Rightarrow> Inr (doc\<lparr>tokens := tokens doc @ ts\<rparr>))
      | None \<Rightarrow> Inr doc)"

definition tagStage ::
  "('m, 's) collaborators \<Rightarrow> DocOpts \<Rightarrow> ('m, 's) Document \<Rightarrow> panic + ('m, 's) Document" where
  "tagStage env base doc =
     (if Tag base then
        (case Model doc of
           None \<Rightarrow> Inl NilDereference
         | Some m \<Rightarrow>
             (case tag env m (tokens doc) of
                Inl p \<Rightarrow> Inl p
              | Inr ts \<Rightarrow> Inr (doc\<lparr>tokens := ts\<rparr>)))
      else Inr doc)"

definition resolveModel ::
  "('m, 's) collaborators \<Rightarrow> DocOpts \<Rightarrow> ('m, 's) Document \<Rightarrow> ('m, 's) Document" where
  "resolveModel env base doc =
     (if Model doc = None then doc\<lparr>Model := defaultModel env (Tag base)\<rparr> else doc)"

definition NewDocument ::
  "('m, 's) collaborators \<Rightarrow> string \<Rightarrow> 'm DocOpt list \<Rightarrow> panic + (('m, 's) Document \<times> error option)" where
  "NewDocument env text opts =
     (let pipeError = None;
          (doc, base) = configure env text opts;
          doc = resolveModel env base doc
      in case segmentStage env text base doc of
           Inl p \<Rightarrow> Inl p
         | Inr doc \<Rightarrow>
             (case tokenizeStage text base doc of
                Inl p \<Rightarrow> Inl p
              | Inr doc \<Rightarrow>
                  (case tagStage env base doc of
                     Inl p \<Rightarrow> Inl p
                   | Inr doc \<Rightarrow> Inr (doc, pipeError))))"

text \<open>The configuration and the model in effect when the stages run.\<close>

definition finalOpts :: "('m, 's) collaborators \<Rightarrow> string \<Rightarrow> 'm DocOpt list \<Rightarrow> DocOpts" where
  "finalOpts env text opts = snd (configure env text opts)"

definition installedModel :: "('m, 's) collaborators \<Rightarrow> string \<Rightarrow> 'm DocOpt list \<Rightarrow> 'm option" where
  "installedModel env text opts = Model (fst (configure env text opts))"

definition resolvedModel :: "('m, 's) collaborators \<Rightarrow> string \<Rightarrow> 'm DocOpt list \<Rightarrow> 'm option" where
  "resolvedModel env text opts =
     Model (resolveModel env (snd (configure env text opts)) (fst (configure env text opts)))"

subsection \<open>The accessors, in memory\<close>

text \<open>
  What a caller can do with the slice an accessor returns depends on where the slice
  lies. Memory holds the cells of \<^verbatim>\<open>Sentence\<close> arrays and the \<^verbatim>\<open>Token\<close> cells, which are the
  targets of the \<^verbatim>\<open>*Token\<close> pointers and the elements of \<^verbatim>\<open>Token\<close> arrays alike. Token
  cells are allocated upwards: every cell below \<open>nextToken\<close> is in use, every cell from
  \<open>nextToken\<close> on is free. A slice is the address of its first element and its length.
\<close>

type_synonym addr = nat

record slice =
  ptr :: addr
  len :: nat

record 's memory =
  sentenceAt :: "addr \<Rightarrow> 's"
  tokenAt :: "addr \<Rightarrow> Token"
  nextToken :: addr

text \<open>
  The two unexported fields of a \<^verbatim>\<open>Document\<close> as Go values: \<^verbatim>\<open>sentences\<close> is a slice of
  \<^verbatim>\<open>Sentence\<close>, \<^verbatim>\<open>tokens\<close> holds pointers to \<^verbatim>\<open>Token\<close>, of which a nil pointer is \<open>None\<close>.
\<close>

record DocumentRep =
  sentencesRep :: slice
  tokensRep :: "addr option list"

definition zeroToken :: Token where
  "zeroToken = \<lparr>surface = [], pos = []\<rparr>"

text \<open>\<^verbatim>\<open>make([]Token, 0, n)\<close>: \<open>n\<close> fresh cells, zeroed, and a slice of length 0 in front of them.\<close>

definition makeTokens :: "'s memory \<Rightarrow> nat \<Rightarrow> 's memory \<times> slice" where
  "makeTokens mem n =
     (mem\<lparr>tokenAt := (\<lambda>a. if nextToken mem \<le> a \<and> a < nextToken mem + n then zeroToken
                          else tokenAt mem a),
          nextToken := nextToken mem + n\<rparr>,
      \<lparr>ptr = nextToken mem, len = 0\<rparr>)"

text \<open>
  \<^verbatim>\<open>append(tokens, tok)\<close> where the capacity suffices, which it does in \<^verbatim>\<open>Tokens\<close>: the
  slice was made with the capacity \<^verbatim>\<open>len(doc.tokens)\<close> and the loop appends once for each
  element of \<^verbatim>\<open>doc.tokens\<close>. The value is stored behind the last element.
\<close>

definition appendToken :: "'s memory \<Rightarrow> slice \<Rightarrow> Token \<Rightarrow> 's memory \<times> slice" where
  "appendToken mem s tok =
     (mem\<lparr>tokenAt := (tokenAt mem)(ptr s + len s := tok)\<rparr>, s\<lparr>len := len s + 1\<rparr>)"

text \<open>The loop of \<^verbatim>\<open>Tokens\<close>; \<^verbatim>\<open>*tok\<close> panics on a nil pointer.\<close>

fun copyTokens :: "'s memory \<Rightarrow> slice \<Rightarrow> addr option list \<Rightarrow> panic + ('s memory \<times> slice)" where
  "copyTokens mem s [] = Inr (mem, s)"
| "copyTokens mem s (None # toks) = Inl NilDereference"
| "copyTokens mem s (Some a # toks) =
     (case appendToken mem s (tokenAt mem a) of (mem', s') \<Rightarrow> copyTokens mem' s' toks)"

definition TokensAt :: "'s memory \<Rightarrow> DocumentRep \<Rightarrow> panic + ('s memory \<times> slice)" where
  "TokensAt mem doc =
     (case makeTokens mem (length (tokensRep doc)) of
        (mem', t) \<Rightarrow> copyTokens mem' t (tokensRep doc))"

definition SentencesAt :: "DocumentRep \<Rightarrow> slice" where
  "SentencesAt doc = sentencesRep doc"

text \<open>What a caller does with a slice: reading it, and the assignment \<^verbatim>\<open>s[i] = v\<close>.\<close>

definition readTokens :: "'s memory \<Rightarrow> slice \<Rightarrow> Token list" where
  "readTokens mem s = map (\<lambda>i. tokenAt mem (ptr s + i)) [0..<len s]"

definition readSentences :: "'s memory \<Rightarrow> slice \<Rightarrow> 's list" where
  "readSentences mem s = map (\<lambda>i. sentenceAt mem (ptr s + i)) [0..<len s]"

definition storeToken :: "'s memory \<Rightarrow> slice \<Rightarrow> nat \<Rightarrow> Token \<Rightarrow> panic + 's memory" where
  "storeToken mem s i v =
     (if i < len s then Inr (mem\<lparr>tokenAt := (tokenAt mem)(ptr s + i := v)\<rparr>)
      else Inl IndexOutOfRange)"

definition storeSentence :: "'s memory \<Rightarrow> slice \<Rightarrow> nat \<Rightarrow> 's \<Rightarrow> panic + 's memory" where
  "storeSentence mem s i v =
     (if i < len s then Inr (mem\<lparr>sentenceAt := (sentenceAt mem)(ptr s + i := v)\<rparr>)
      else Inl IndexOutOfRange)"

text \<open>A caller that assigns a list of elements, one after the other.\<close>

fun storeTokens :: "'s memory \<Rightarrow> slice \<Rightarrow> (nat \<times> Token) list \<Rightarrow> panic + 's memory" where
  "storeTokens mem s [] = Inr mem"
| "storeTokens mem s ((i, v) # ws) =
     (case storeToken mem s i v of Inl p \<Rightarrow> Inl p | Inr mem' \<Rightarrow> storeTokens mem' s ws)"

text \<open>
  The two callers of the claims about aliasing:
  \<^verbatim>\<open>s := doc.Sentences(); s[i] = v; return doc.Sentences()\<close> and
  \<^verbatim>\<open>t := doc.Tokens(); t[i] = v (for each (i, v) of ws); return doc.Tokens()\<close>,
  each returning the elements of the slice that the second call of the accessor returns.
\<close>

definition mutateThenSentences ::
  "'s memory \<Rightarrow> DocumentRep \<Rightarrow> nat \<Rightarrow> 's \<Rightarrow> panic + 's list" where
  "mutateThenSentences mem doc i v =
     (case storeSentence mem (SentencesAt doc) i v of
        Inl p \<Rightarrow> Inl p
      | Inr mem' \<Rightarrow> Inr (readSentences mem' (SentencesAt doc)))"

definition mutateThenTokens ::
  "'s memory \<Rightarrow> DocumentRep \<Rightarrow> (nat \<times> Token) list \<Rightarrow> panic + Token list" where
  "mutateThenTokens mem doc ws =
     (case TokensAt mem doc of
        Inl p \<Rightarrow> Inl p
      | Inr (mem1, t) \<Rightarrow>
          (case storeTokens mem1 t ws of
             Inl p \<Rightarrow> Inl p
           | Inr mem2 \<Rightarrow>
               (case TokensAt mem2 doc of
                  Inl p \<Rightarrow> Inl p
                | Inr (mem3, t') \<Rightarrow> Inr (readTokens mem3 t'))))"

text \<open>The pointers of a document point to cells in use, as every Go pointer does.\<close>

definition allocated :: "'s memory \<Rightarrow> DocumentRep \<Rightarrow> bool" where
  "allocated mem doc =
     list_all (\<lambda>tok. case tok of None \<Rightarrow> True | Some a \<Rightarrow> a < nextToken mem) (tokensRep doc)"

text \<open>
  The values that the pointers point to, which is the field \<open>tokens\<close> of the document on
  values; there are none when a pointer is nil.
\<close>

fun pointees :: "'s memory \<Rightarrow> addr option list \<Rightarrow> Token list option" where
  "pointees mem [] = Some []"
| "pointees mem (None # toks) = None"
| "pointees mem (Some a # toks) = map_option ((#) (tokenAt mem a)) (pointees mem toks)"

subsection \<open>The settings as the specification describes them\<close>






text \<open>
  The legacy toggle as the specification describes it: the option that installs the
  default tokenizer, or removes the tokenizer.
\<close>

definition legacyToggle :: "('m, 's) collaborators \<Rightarrow> bool \<Rightarrow> 'm DocOpt" where
  "legacyToggle env include =
     UsingTokenizer (if include then Tokenizer (defaultOpts env) else None)"



subsection \<open>Sample collaborators\<close>

text \<open>
  Concrete collaborators on which the theorems are instantiated: a tokenizer with one
  token per character, a tagger that tags every token as a noun, a segmenter that makes a
  non-empty text one sentence, and models that are their names. The last two definitions
  are collaborators that fail.
\<close>

definition charToken :: "char \<Rightarrow> Token" where
  "charToken c = \<lparr>surface = [c], pos = []\<rparr>"

definition charTokenizer :: Tokenizer where
  "charTokenizer text = Inr (map charToken text)"

definition markNoun :: "Token \<Rightarrow> Token" where
  "markNoun t = t\<lparr>pos := ''NN''\<rparr>"

definition nounTagger :: "string \<Rightarrow> Token list \<Rightarrow> panic + Token list" where
  "nounTagger m ts = Inr (map markNoun ts)"

definition lineSegmenter :: "string \<Rightarrow> panic + string list" where
  "lineSegmenter text = Inr (if text = [] then [] else [text])"

definition namedModel :: "bool \<Rightarrow> string option" where
  "namedModel tagging = Some (if tagging then ''en-tagging'' else ''en-plain'')"

definition sample :: "(string, string) collaborators" where
  "sample = \<lparr>NewIterTokenizer = Some charTokenizer, defaultModel = namedModel,
              segment = lineSegmenter, tag = nounTagger\<rparr>"

text \<open>A memory with one sentence and two tokens, and a document over it.\<close>

definition sentenceCells :: "addr \<Rightarrow> string" where
  "sentenceCells a = (if a = 0 then ''Hi'' else [])"

definition tokenCells :: "addr \<Rightarrow> Token" where
  "tokenCells a =
     (if a = 0 then \<lparr>surface = ''H'', pos = ''NN''\<rparr>
      else if a = 1 then \<lparr>surface = ''i'', pos = ''NN''\<rparr> else zeroToken)"

definition sampleMemory :: "string memory" where
  "sampleMemory = \<lparr>sentenceAt = sentenceCells, tokenAt = tokenCells, nextToken = 2\<rparr>"

definition sampleRep :: DocumentRep where
  "sampleRep = \<lparr>sentencesRep = \<lparr>ptr = 0, len = 1\<rparr>, tokensRep = [Some 0, Some 1]\<rparr>"

text \<open>
  The contract of the tagger of model \<open>m\<close>: it returns on every token sequence, with the
  same tokens in the same order, each now carrying a tag.
\<close>

definition taggerContract :: "('m, 's) collaborators \<Rightarrow> 'm \<Rightarrow> bool" where
  "taggerContract env m =
     (\<forall>ts. \<exists>ts'. tag env m ts = Inr ts' \<and> map surface ts' = map surface ts
                    \<and> (\<forall>t \<in> set ts'. pos t \<noteq> []))"



section \<open>Properties\<close>

subsection \<open>The option phase\<close>

lemma applyOpt_frame:
  "sentences (fst (applyOpt opt s)) = sentences (fst s) \<and>
   tokens (fst (applyOpt opt s)) = tokens (fst s) \<and>
   Text (fst (applyOpt opt s)) = Text (fst s)"
  by (cases opt; cases s) simp_all

lemma foldl_applyOpt_frame:
  "sentences (fst (foldl (\<lambda>state opt. applyOpt opt state) s opts)) = sentences (fst s) \<and>
   tokens (fst (foldl (\<lambda>state opt. applyOpt opt state) s opts)) = tokens (fst s) \<and>
   Text (fst (foldl (\<lambda>state opt. applyOpt opt state) s opts)) = Text (fst s)"
  by (induction opts arbitrary: s) (simp_all add: applyOpt_frame)

lemma configure_frame:
  "sentences (fst (configure env text opts)) = []"
  "tokens (fst (configure env text opts)) = []"
  "Text (fst (configure env text opts)) = text"
  by (simp_all add: configure_def foldl_applyOpt_frame)




subsection \<open>The stages\<close>

lemma resolveModel_frame:
  "sentences (resolveModel env base doc) = sentences doc"
  "tokens (resolveModel env base doc) = tokens doc"
  "Text (resolveModel env base doc) = Text doc"
  by (simp_all add: resolveModel_def)

lemma Tokens_eq: "Tokens doc = tokens doc"
proof -
  have "foldl (\<lambda>toks tok. toks @ [tok]) acc xs = acc @ xs" for acc and xs :: "Token list"
    by (induction xs arbitrary: acc) simp_all
  then show ?thesis by (simp add: Tokens_def)
qed

lemma NewDocument_stages:
  "NewDocument env text opts =
     (case segmentStage env text (finalOpts env text opts)
             (resolveModel env (finalOpts env text opts) (fst (configure env text opts))) of
        Inl p \<Rightarrow> Inl p
      | Inr d1 \<Rightarrow>
          (case tokenizeStage text (finalOpts env text opts) d1 of
             Inl p \<Rightarrow> Inl p
           | Inr d2 \<Rightarrow>
               (case tagStage env (finalOpts env text opts) d2 of
                  Inl p \<Rightarrow> Inl p
                | Inr d3 \<Rightarrow> Inr (d3, None))))"
  by (cases "configure env text opts")
     (simp add: NewDocument_def finalOpts_def Let_def cong: sum.case_cong)

text \<open>What a returned document holds.\<close>

lemma NewDocument_Inr_D:
  assumes "NewDocument env text opts = Inr (doc, err)"
  shows "err = None"
    and "Model doc = resolvedModel env text opts"
    and "Text doc = text"
    and "Segment (finalOpts env text opts) \<Longrightarrow> segment env text = Inr (sentences doc)"
    and "\<not> Segment (finalOpts env text opts) \<Longrightarrow> sentences doc = []"
    and "\<exists>toks. (case Tokenizer (finalOpts env text opts) of
                    None \<Rightarrow> toks = [] | Some tk \<Rightarrow> tk text = Inr toks) \<and>
          (if Tag (finalOpts env text opts)
           then \<exists>m. resolvedModel env text opts = Some m \<and> tag env m toks = Inr (tokens doc)
           else tokens doc = toks)"
  using assms
  by (auto simp: NewDocument_stages segmentStage_def tokenizeStage_def tagStage_def
        resolvedModel_def finalOpts_def configure_frame resolveModel_frame
      split: sum.splits option.splits if_splits)

text \<open>Two runs on the sample collaborators.\<close>

lemma nounTagger_contract: "taggerContract sample m"
  by (simp add: taggerContract_def sample_def nounTagger_def markNoun_def)

lemma sample_run_Hi:
  "NewDocument sample ''Hi'' [] =
     Inr (\<lparr>Model = Some ''en-tagging'', Text = ''Hi'', sentences = [''Hi''],
           tokens = [\<lparr>surface = ''H'', pos = ''NN''\<rparr>, \<lparr>surface = ''i'', pos = ''NN''\<rparr>]\<rparr>, None)"
  by (simp add: NewDocument_def configure_def defaultOpts_def resolveModel_def segmentStage_def
        tokenizeStage_def tagStage_def sample_def lineSegmenter_def charTokenizer_def charToken_def
        nounTagger_def markNoun_def namedModel_def)

subsection \<open>The accessors in memory\<close>

lemma pointees_None_iff: "pointees mem toks = None \<longleftrightarrow> None \<in> set toks"
  by (induction mem toks rule: pointees.induct) auto

lemma pointees_length: "pointees mem toks = Some vs \<Longrightarrow> length vs = length toks"
  by (induction mem toks arbitrary: vs rule: pointees.induct) auto

lemma pointees_cong:
  "(\<And>a. Some a \<in> set toks \<Longrightarrow> tokenAt mem' a = tokenAt mem a) \<Longrightarrow>
   pointees mem' toks = pointees mem toks"
proof (induction toks)
  case Nil
  show ?case by simp
next
  case (Cons tok toks)
  then show ?case by (cases tok) simp_all
qed

lemma readTokens_snoc:
  "readTokens (mem\<lparr>tokenAt := (tokenAt mem)(ptr s + len s := v)\<rparr>) (s\<lparr>len := len s + 1\<rparr>) =
     readTokens mem s @ [v]"
  by (simp add: readTokens_def)

lemma copyTokens_Inl:
  "None \<in> set toks \<Longrightarrow> copyTokens mem s toks = Inl NilDereference"
  by (induction mem s toks rule: copyTokens.induct) (auto simp: appendToken_def)

lemma copyTokens_Inr:
  assumes "\<And>a. Some a \<in> set toks \<Longrightarrow> a < ptr s"
      and "pointees mem toks = Some vs"
  shows "\<exists>mem'. copyTokens mem s toks = Inr (mem', s\<lparr>len := len s + length toks\<rparr>) \<and>
           readTokens mem' (s\<lparr>len := len s + length toks\<rparr>) = readTokens mem s @ vs \<and>
           (\<forall>a < ptr s. tokenAt mem' a = tokenAt mem a) \<and>
           nextToken mem' = nextToken mem \<and> sentenceAt mem' = sentenceAt mem"
  using assms
proof (induction toks arbitrary: mem s vs)
  case Nil
  then show ?case by simp
next
  case (Cons tok toks)
  from Cons.prems(2) obtain a vs' where tok: "tok = Some a"
    and vs: "vs = tokenAt mem a # vs'" and rest: "pointees mem toks = Some vs'"
    by (cases tok) auto
  let ?mem1 = "mem\<lparr>tokenAt := (tokenAt mem)(ptr s + len s := tokenAt mem a)\<rparr>"
  let ?s1 = "s\<lparr>len := len s + 1\<rparr>"
  have below: "\<And>b. Some b \<in> set toks \<Longrightarrow> b < ptr ?s1"
    using Cons.prems(1) by simp
  have "pointees ?mem1 toks = pointees mem toks"
  proof (rule pointees_cong)
    fix b assume "Some b \<in> set toks"
    then have "b < ptr s" using Cons.prems(1) by simp
    then show "tokenAt ?mem1 b = tokenAt mem b" by simp
  qed
  with rest have rest1: "pointees ?mem1 toks = Some vs'" by simp
  from Cons.IH [OF below rest1] obtain mem' where
    run: "copyTokens ?mem1 ?s1 toks = Inr (mem', ?s1\<lparr>len := len ?s1 + length toks\<rparr>)" and
    rd: "readTokens mem' (?s1\<lparr>len := len ?s1 + length toks\<rparr>) = readTokens ?mem1 ?s1 @ vs'" and
    fr: "\<forall>b < ptr ?s1. tokenAt mem' b = tokenAt ?mem1 b" and
    nx: "nextToken mem' = nextToken ?mem1" and se: "sentenceAt mem' = sentenceAt ?mem1"
    by blast
  have eq: "?s1\<lparr>len := len ?s1 + length toks\<rparr> = s\<lparr>len := len s + length (tok # toks)\<rparr>"
    by simp
  have "copyTokens mem s (tok # toks) = Inr (mem', s\<lparr>len := len s + length (tok # toks)\<rparr>)"
    using run by (simp add: tok appendToken_def)
  moreover have "readTokens mem' (s\<lparr>len := len s + length (tok # toks)\<rparr>) = readTokens mem s @ vs"
    using rd readTokens_snoc [of mem s "tokenAt mem a"] unfolding eq vs by simp
  moreover have "\<forall>b < ptr s. tokenAt mem' b = tokenAt mem b"
    using fr by simp
  moreover have "nextToken mem' = nextToken mem" "sentenceAt mem' = sentenceAt mem"
    using nx se by simp_all
  ultimately show ?case by blast
qed

lemma allocated_iff: "allocated mem doc \<longleftrightarrow> (\<forall>a. Some a \<in> set (tokensRep doc) \<longrightarrow> a < nextToken mem)"
  by (auto simp: allocated_def list_all_iff split: option.splits)

lemma TokensAt_Inl:
  "None \<in> set (tokensRep doc) \<Longrightarrow> TokensAt mem doc = Inl NilDereference"
  by (simp add: TokensAt_def makeTokens_def copyTokens_Inl)

lemma TokensAt_Inr:
  assumes "allocated mem doc" and "pointees mem (tokensRep doc) = Some vs"
  shows "\<exists>mem'. TokensAt mem doc = Inr (mem', \<lparr>ptr = nextToken mem, len = length vs\<rparr>) \<and>
           readTokens mem' \<lparr>ptr = nextToken mem, len = length vs\<rparr> = vs \<and>
           (\<forall>a < nextToken mem. tokenAt mem' a = tokenAt mem a) \<and>
           nextToken mem' = nextToken mem + length vs \<and> sentenceAt mem' = sentenceAt mem"
proof -
  let ?n = "length (tokensRep doc)"
  let ?mem0 = "mem\<lparr>tokenAt := (\<lambda>a. if nextToken mem \<le> a \<and> a < nextToken mem + ?n then zeroToken
                                    else tokenAt mem a),
                    nextToken := nextToken mem + ?n\<rparr>"
  let ?s0 = "\<lparr>ptr = nextToken mem, len = 0\<rparr>"
  have mk: "makeTokens mem ?n = (?mem0, ?s0)"
    by (simp add: makeTokens_def)
  have low: "\<forall>a < nextToken mem. tokenAt ?mem0 a = tokenAt mem a"
    by simp
  have below: "\<And>a. Some a \<in> set (tokensRep doc) \<Longrightarrow> a < ptr ?s0"
    using assms(1) by (simp add: allocated_iff)
  have "pointees ?mem0 (tokensRep doc) = pointees mem (tokensRep doc)"
  proof (rule pointees_cong)
    fix a assume "Some a \<in> set (tokensRep doc)"
    then have "a < nextToken mem" using below by simp
    then show "tokenAt ?mem0 a = tokenAt mem a" by simp
  qed
  with assms(2) have p0: "pointees ?mem0 (tokensRep doc) = Some vs" by simp
  have n: "length vs = ?n" using assms(2) by (rule pointees_length)
  from copyTokens_Inr [OF below p0] obtain mem' where
    run: "copyTokens ?mem0 ?s0 (tokensRep doc) = Inr (mem', ?s0\<lparr>len := len ?s0 + ?n\<rparr>)" and
    rd: "readTokens mem' (?s0\<lparr>len := len ?s0 + ?n\<rparr>) = readTokens ?mem0 ?s0 @ vs" and
    fr: "\<forall>a < ptr ?s0. tokenAt mem' a = tokenAt ?mem0 a" and
    nx: "nextToken mem' = nextToken ?mem0" and se: "sentenceAt mem' = sentenceAt ?mem0"
    by blast
  have "TokensAt mem doc = Inr (mem', \<lparr>ptr = nextToken mem, len = length vs\<rparr>)"
    using run by (simp add: TokensAt_def mk n)
  moreover have "readTokens mem' \<lparr>ptr = nextToken mem, len = length vs\<rparr> = vs"
    using rd by (simp add: n readTokens_def)
  moreover have "\<forall>a < nextToken mem. tokenAt mem' a = tokenAt mem a"
    using fr low by simp
  moreover have "nextToken mem' = nextToken mem + length vs" "sentenceAt mem' = sentenceAt mem"
    using nx se by (simp_all add: n)
  ultimately show ?thesis by blast
qed

lemma storeTokens_frame:
  "storeTokens mem s ws = Inr mem' \<Longrightarrow>
     (\<forall>a < ptr s. tokenAt mem' a = tokenAt mem a) \<and> nextToken mem' = nextToken mem"
proof (induction mem s ws rule: storeTokens.induct)
  case (1 mem s)
  then show ?case by simp
next
  case (2 mem s i v ws)
  then show ?case
    by (auto simp: storeToken_def split: if_splits)
qed

lemma readSentences_store:
  "i < len s \<Longrightarrow>
   readSentences (mem\<lparr>sentenceAt := (sentenceAt mem)(ptr s + i := v)\<rparr>) s =
     (readSentences mem s)[i := v]"
  by (rule nth_equalityI) (simp_all add: readSentences_def nth_list_update)

text \<open>
  The accessor on values is the accessor in memory, read: \<^verbatim>\<open>Tokens\<close> returns a slice that
  holds the values the pointers of the document point to.
\<close>

lemma TokensAt_reads_tokens:
  assumes "allocated mem rep" and "pointees mem (tokensRep rep) = Some (tokens doc)"
  shows "\<exists>mem' t. TokensAt mem rep = Inr (mem', t) \<and> readTokens mem' t = Tokens doc"
  using TokensAt_Inr [OF assms] by (auto simp: Tokens_eq)

section \<open>The claims\<close>

text \<open>
  Claim C1. When the options leave the tokenizer unset and tagging enabled, \<^verbatim>\<open>NewDocument\<close>
  returns a document with no tokens and a nil error: the tokenizer is not run, and the
  tagger is run on the empty sequence. The collaborators are assumed to do their part: the
  segmenter returns on the text, a model is resolved, and its tagger returns the empty
  sequence for the empty sequence, as the contract of the tagger demands.
\<close>

theorem tagging_without_tokenizer:
  assumes "Tokenizer (finalOpts env text opts) = None"
      and "Tag (finalOpts env text opts)"
      and "segment env text = Inr ss"
      and "resolvedModel env text opts = Some m"
      and "tag env m [] = Inr []"
  shows "\<exists>doc. NewDocument env text opts = Inr (doc, None) \<and> Tokens doc = []"
  using assms
  by (simp add: NewDocument_stages segmentStage_def tokenizeStage_def tagStage_def
        resolvedModel_def finalOpts_def resolveModel_frame configure_frame Tokens_eq)

theorem tagging_without_tokenizer_witness:
  "Tokenizer (finalOpts sample ''text'' [UsingTokenizer None, WithTagging True]) = None \<and>
   Tag (finalOpts sample ''text'' [UsingTokenizer None, WithTagging True]) \<and>
   segment sample ''text'' = Inr [''text''] \<and>
   resolvedModel sample ''text'' [UsingTokenizer None, WithTagging True] = Some ''en-tagging'' \<and>
   tag sample ''en-tagging'' [] = Inr [] \<and>
   (\<exists>doc. NewDocument sample ''text'' [UsingTokenizer None, WithTagging True] = Inr (doc, None)
      \<and> Tokens doc = [])"
proof -
  have c: "Tokenizer (finalOpts sample ''text'' [UsingTokenizer None, WithTagging True]) = None"
    by (simp add: finalOpts_def configure_def defaultOpts_def)
  have t: "Tag (finalOpts sample ''text'' [UsingTokenizer None, WithTagging True])"
    by (simp add: finalOpts_def configure_def defaultOpts_def)
  have s: "segment sample ''text'' = Inr [''text'']"
    by (simp add: sample_def lineSegmenter_def)
  have m: "resolvedModel sample ''text'' [UsingTokenizer None, WithTagging True] = Some ''en-tagging''"
    by (simp add: resolvedModel_def resolveModel_def configure_def defaultOpts_def sample_def
          namedModel_def)
  have g: "tag sample ''en-tagging'' [] = Inr []"
    by (simp add: sample_def nounTagger_def)
  show ?thesis
    using c t s m g tagging_without_tokenizer [OF c t s m g] by simp
qed




text \<open>
  Claim C3, as amended. \<^verbatim>\<open>WithTokenization(false)\<close> does what removing the tokenizer does, on
  every state. \<^verbatim>\<open>WithTokenization(true)\<close> leaves every state as it is, so it does what
  installing the default tokenizer does exactly on the states whose tokenizer is the default
  one already.
\<close>

theorem legacy_toggle:
  "applyOpt (WithTokenization False) s = applyOpt (legacyToggle env False) s \<and>
   applyOpt (WithTokenization True) s = s \<and>
   (applyOpt (WithTokenization True) s = applyOpt (legacyToggle env True) s) =
     (Tokenizer (snd s) = Tokenizer (defaultOpts env))"
proof -
  obtain doc base where s: "s = (doc, base)" by (cases s)
  have "(base = base\<lparr>Tokenizer := t\<rparr>) = (Tokenizer base = t)" for t
    by (cases base) auto
  then show ?thesis
    by (simp add: s legacyToggle_def)
qed

theorem legacy_toggle_witness:
  "applyOpt (WithTokenization True) (configure sample ''text'' [UsingTokenizer None]) =
     configure sample ''text'' [UsingTokenizer None] \<and>
   Tokenizer (snd (configure sample ''text'' [UsingTokenizer None])) \<noteq> Tokenizer (defaultOpts sample)"
  using legacy_toggle [of "configure sample ''text'' [UsingTokenizer None]" sample]
  by (simp add: configure_def defaultOpts_def sample_def)

text \<open>
  Claim C3 as stated fails on the state that \<^verbatim>\<open>UsingTokenizer(nil)\<close> leaves:
  \<^verbatim>\<open>WithTokenization(true)\<close> keeps the tokenizer nil, installing the default tokenizer does not.
\<close>

theorem legacy_toggle_counterexample:
  "applyOpt (WithTokenization True) (configure sample ''text'' [UsingTokenizer None]) \<noteq>
   applyOpt (legacyToggle sample True) (configure sample ''text'' [UsingTokenizer None])"
  by (simp add: configure_def legacyToggle_def defaultOpts_def sample_def)




text \<open>
  Claim C5, as amended. \<^verbatim>\<open>Sentences\<close> returns the slice the document holds, not a copy: an
  element assigned through the returned slice is the element a subsequent call of
  \<^verbatim>\<open>Sentences\<close> returns at that index, and the other elements are as they were.
\<close>

theorem Sentences_returns_the_internal_slice:
  "SentencesAt doc = sentencesRep doc \<and>
   (i < len (sentencesRep doc) \<longrightarrow>
      mutateThenSentences mem doc i v = Inr ((readSentences mem (SentencesAt doc))[i := v]))"
  by (simp add: SentencesAt_def mutateThenSentences_def storeSentence_def readSentences_store)

theorem Sentences_returns_the_internal_slice_witness:
  "0 < len (sentencesRep sampleRep) \<and>
   mutateThenSentences sampleMemory sampleRep 0 ''Bye'' = Inr [''Bye'']"
proof -
  have l: "0 < len (sentencesRep sampleRep)"
    by (simp add: sampleRep_def)
  show ?thesis
    using l Sentences_returns_the_internal_slice [of sampleRep 0 sampleMemory "''Bye''"]
    by (simp add: readSentences_def sampleRep_def sampleMemory_def sentenceCells_def)
qed

text \<open>
  Claim C5 as stated fails: on a document with the one sentence \<open>Hi\<close>, assigning \<open>Bye\<close> to
  element 0 of the slice that \<^verbatim>\<open>Sentences\<close> returned makes the next call return \<open>Bye\<close>.
\<close>

theorem Sentences_copy_counterexample:
  "readSentences sampleMemory (SentencesAt sampleRep) = [''Hi''] \<and>
   mutateThenSentences sampleMemory sampleRep 0 ''Bye'' = Inr [''Bye''] \<and>
   mutateThenSentences sampleMemory sampleRep 0 ''Bye'' \<noteq>
     Inr (readSentences sampleMemory (SentencesAt sampleRep))"
  by (simp add: mutateThenSentences_def storeSentence_def readSentences_def SentencesAt_def
        sampleMemory_def sampleRep_def sentenceCells_def)

text \<open>
  Claim C6. \<^verbatim>\<open>Tokens\<close> returns a copy: whatever elements a caller assigns in the slice that
  \<^verbatim>\<open>Tokens\<close> returned, a subsequent call of \<^verbatim>\<open>Tokens\<close> returns the tokens that the first call
  returned.
\<close>

theorem Tokens_returns_a_copy:
  assumes "allocated mem doc"
      and "TokensAt mem doc = Inr (mem1, t)"
      and "storeTokens mem1 t ws = Inr mem2"
  shows "mutateThenTokens mem doc ws = Inr (readTokens mem1 t)"
proof -
  have "None \<notin> set (tokensRep doc)"
    using assms(2) TokensAt_Inl [of doc mem] by auto
  then obtain vs where vs: "pointees mem (tokensRep doc) = Some vs"
    using pointees_None_iff [of mem "tokensRep doc"] by (cases "pointees mem (tokensRep doc)") auto
  from TokensAt_Inr [OF assms(1) vs] assms(2) have
    t: "t = \<lparr>ptr = nextToken mem, len = length vs\<rparr>" and
    rd: "readTokens mem1 t = vs" and
    fr1: "\<forall>a < nextToken mem. tokenAt mem1 a = tokenAt mem a" and
    nx1: "nextToken mem1 = nextToken mem + length vs"
    by auto
  from storeTokens_frame [OF assms(3)] have
    fr2: "\<forall>a < nextToken mem. tokenAt mem2 a = tokenAt mem1 a" and
    nx2: "nextToken mem2 = nextToken mem1"
    by (simp_all add: t)
  have alloc2: "allocated mem2 doc"
    using assms(1) nx1 nx2 by (auto simp: allocated_iff)
  have "pointees mem2 (tokensRep doc) = pointees mem (tokensRep doc)"
    by (rule pointees_cong) (use assms(1) fr1 fr2 in \<open>simp add: allocated_iff\<close>)
  with vs have vs2: "pointees mem2 (tokensRep doc) = Some vs" by simp
  from TokensAt_Inr [OF alloc2 vs2] obtain mem3 t' where
    "TokensAt mem2 doc = Inr (mem3, t')" "readTokens mem3 t' = vs"
    by blast
  then show ?thesis
    using assms(2,3) rd by (simp add: mutateThenTokens_def)
qed

theorem Tokens_returns_a_copy_witness:
  "allocated sampleMemory sampleRep \<and>
   mutateThenTokens sampleMemory sampleRep [(0, zeroToken), (1, zeroToken)] =
     Inr [\<lparr>surface = ''H'', pos = ''NN''\<rparr>, \<lparr>surface = ''i'', pos = ''NN''\<rparr>]"
proof -
  let ?vs = "[\<lparr>surface = ''H'', pos = ''NN''\<rparr>, \<lparr>surface = ''i'', pos = ''NN''\<rparr>]"
  have a: "allocated sampleMemory sampleRep"
    by (simp add: allocated_def sampleMemory_def sampleRep_def)
  have p: "pointees sampleMemory (tokensRep sampleRep) = Some ?vs"
    by (simp add: sampleMemory_def sampleRep_def tokenCells_def)
  from TokensAt_Inr [OF a p] obtain mem1 where
    run: "TokensAt sampleMemory sampleRep =
            Inr (mem1, \<lparr>ptr = nextToken sampleMemory, len = length ?vs\<rparr>)" and
    rd: "readTokens mem1 \<lparr>ptr = nextToken sampleMemory, len = length ?vs\<rparr> = ?vs"
    by blast
  obtain mem2 where
    st: "storeTokens mem1 \<lparr>ptr = nextToken sampleMemory, len = length ?vs\<rparr>
           [(0, zeroToken), (1, zeroToken)] = Inr mem2"
    by (simp add: storeToken_def)
  show ?thesis
    using a rd Tokens_returns_a_copy [OF a run st] by simp
qed

text \<open>
  Claim C7. The document that \<^verbatim>\<open>NewDocument\<close> returns has a model: the one an option
  installed, and otherwise the default model for the final value of the tagging setting.
  The default model is \<open>dm\<close>, the non-nil result of \<^verbatim>\<open>defaultModel\<close> at that value.
\<close>

theorem model_never_absent:
  assumes "NewDocument env text opts = Inr (doc, err)"
      and "defaultModel env (Tag (finalOpts env text opts)) = Some dm"
  shows "Model doc = Some (case installedModel env text opts of Some m \<Rightarrow> m | None \<Rightarrow> dm)"
  using NewDocument_Inr_D(2) [OF assms(1)] assms(2)
  by (simp add: resolvedModel_def resolveModel_def installedModel_def finalOpts_def
      split: option.splits)

theorem model_never_absent_witness:
  "NewDocument sample ''Hi'' [UsingModel (Some ''custom''), WithTagging False] =
     Inr (\<lparr>Model = Some ''custom'', Text = ''Hi'', sentences = [''Hi''],
           tokens = [charToken CHR ''H'', charToken CHR ''i'']\<rparr>, None) \<and>
   defaultModel sample (Tag (finalOpts sample ''Hi'' [UsingModel (Some ''custom''), WithTagging False]))
     = Some ''en-plain'' \<and>
   installedModel sample ''Hi'' [UsingModel (Some ''custom''), WithTagging False] = Some ''custom''"
proof -
  have run: "NewDocument sample ''Hi'' [UsingModel (Some ''custom''), WithTagging False] =
     Inr (\<lparr>Model = Some ''custom'', Text = ''Hi'', sentences = [''Hi''],
           tokens = [charToken CHR ''H'', charToken CHR ''i'']\<rparr>, None)"
    by (simp add: NewDocument_def configure_def defaultOpts_def resolveModel_def segmentStage_def
        tokenizeStage_def tagStage_def sample_def lineSegmenter_def charTokenizer_def)
  have dm: "defaultModel sample
      (Tag (finalOpts sample ''Hi'' [UsingModel (Some ''custom''), WithTagging False])) = Some ''en-plain''"
    by (simp add: finalOpts_def configure_def defaultOpts_def sample_def namedModel_def)
  show ?thesis
    using run dm model_never_absent [OF run dm]
    by (simp split: option.splits)
qed

text \<open>
  Claim C8. With tagging and a tokenizer enabled and a tagger that meets its contract,
  the tokens of the returned document are as many as the tokenizer produced, with the same
  surfaces in the same order, and each carries a tag.
\<close>

theorem tagging_preserves_tokens:
  assumes "NewDocument env text opts = Inr (doc, err)"
      and "Tag (finalOpts env text opts)"
      and "Tokenizer (finalOpts env text opts) = Some tk"
      and "tk text = Inr ts"
      and "resolvedModel env text opts = Some m"
      and "taggerContract env m"
  shows "length (Tokens doc) = length ts \<and> map surface (Tokens doc) = map surface ts \<and>
         (\<forall>t \<in> set (Tokens doc). pos t \<noteq> [])"
proof -
  from NewDocument_Inr_D(6) [OF assms(1)] assms(2,3,4,5)
  have run: "tag env m ts = Inr (tokens doc)"
    by auto
  from assms(6) obtain ts' where
    "tag env m ts = Inr ts'" "map surface ts' = map surface ts" "\<forall>t \<in> set ts'. pos t \<noteq> []"
    unfolding taggerContract_def by blast
  with run have same: "map surface (tokens doc) = map surface ts"
    and tagged: "\<forall>t \<in> set (tokens doc). pos t \<noteq> []"
    by simp_all
  from same have "length (tokens doc) = length ts"
    by (rule map_eq_imp_length_eq)
  with same tagged show ?thesis
    by (simp add: Tokens_eq)
qed

theorem tagging_preserves_tokens_witness:
  "NewDocument sample ''Hi'' [] =
     Inr (\<lparr>Model = Some ''en-tagging'', Text = ''Hi'', sentences = [''Hi''],
           tokens = [\<lparr>surface = ''H'', pos = ''NN''\<rparr>, \<lparr>surface = ''i'', pos = ''NN''\<rparr>]\<rparr>, None) \<and>
   Tag (finalOpts sample ''Hi'' []) \<and>
   Tokenizer (finalOpts sample ''Hi'' []) = Some charTokenizer \<and>
   charTokenizer ''Hi'' = Inr [charToken CHR ''H'', charToken CHR ''i''] \<and>
   resolvedModel sample ''Hi'' [] = Some ''en-tagging'' \<and>
   taggerContract sample ''en-tagging'' \<and>
   length (Tokens \<lparr>Model = Some ''en-tagging'', Text = ''Hi'', sentences = [''Hi''],
           tokens = [\<lparr>surface = ''H'', pos = ''NN''\<rparr>, \<lparr>surface = ''i'', pos = ''NN''\<rparr>]\<rparr>) = 2"
proof -
  have t: "Tag (finalOpts sample ''Hi'' [])"
    by (simp add: finalOpts_def configure_def defaultOpts_def)
  have k: "Tokenizer (finalOpts sample ''Hi'' []) = Some charTokenizer"
    by (simp add: finalOpts_def configure_def defaultOpts_def sample_def)
  have r: "charTokenizer ''Hi'' = Inr [charToken CHR ''H'', charToken CHR ''i'']"
    by (simp add: charTokenizer_def)
  have m: "resolvedModel sample ''Hi'' [] = Some ''en-tagging''"
    by (simp add: resolvedModel_def resolveModel_def configure_def defaultOpts_def sample_def
          namedModel_def)
  show ?thesis
    using t k r m nounTagger_contract [of "''en-tagging''"] sample_run_Hi
      tagging_preserves_tokens [OF sample_run_Hi t k r m nounTagger_contract]
    by simp
qed

text \<open>
  Claim C9. On the empty text and without options, \<^verbatim>\<open>NewDocument\<close> returns a nil error and a
  document without sentences and without tokens, provided that the segmenter and the
  default tokenizer return empty sequences for the empty text, that there is a default
  model for tagging, and that its tagger returns the empty sequence for the empty sequence.
\<close>

theorem empty_text:
  assumes "segment env [] = Inr []"
      and "\<And>tk. NewIterTokenizer env = Some tk \<Longrightarrow> tk [] = Inr []"
      and "defaultModel env True = Some m"
      and "tag env m [] = Inr []"
  shows "\<exists>doc. NewDocument env [] [] = Inr (doc, None) \<and> Sentences doc = [] \<and> Tokens doc = []"
  using assms
  by (cases "NewIterTokenizer env")
     (simp_all add: NewDocument_def configure_def defaultOpts_def resolveModel_def
        segmentStage_def tokenizeStage_def tagStage_def Sentences_def Tokens_eq)

theorem empty_text_witness:
  "segment sample [] = Inr [] \<and> NewIterTokenizer sample = Some charTokenizer \<and>
   charTokenizer [] = Inr [] \<and> defaultModel sample True = Some ''en-tagging'' \<and>
   tag sample ''en-tagging'' [] = Inr [] \<and>
   (\<exists>doc. NewDocument sample [] [] = Inr (doc, None) \<and> Sentences doc = [] \<and> Tokens doc = [])"
proof -
  have s: "segment sample [] = Inr []"
    by (simp add: sample_def lineSegmenter_def)
  have k: "tk [] = Inr []" if "NewIterTokenizer sample = Some tk" for tk
    using that by (auto simp: sample_def charTokenizer_def)
  have m: "defaultModel sample True = Some ''en-tagging''"
    by (simp add: sample_def namedModel_def)
  have g: "tag sample ''en-tagging'' [] = Inr []"
    by (simp add: sample_def nounTagger_def)
  have "\<exists>doc. NewDocument sample [] [] = Inr (doc, None) \<and> Sentences doc = [] \<and> Tokens doc = []"
    by (rule empty_text [OF s _ m g]) (rule k)
  with s m g show ?thesis
    by (simp add: sample_def charTokenizer_def)
qed

text \<open>
  Claim C10. Whenever \<^verbatim>\<open>NewDocument\<close> returns, its error result is nil: \<^verbatim>\<open>pipeError\<close> is
  declared, never assigned, and returned.
\<close>

theorem NewDocument_error_nil:
  assumes "NewDocument env text opts = Inr (doc, err)"
  shows "err = None"
  using assms by (rule NewDocument_Inr_D(1))

theorem NewDocument_error_nil_witness:
  "NewDocument sample ''Hi'' [] =
     Inr (\<lparr>Model = Some ''en-tagging'', Text = ''Hi'', sentences = [''Hi''],
           tokens = [\<lparr>surface = ''H'', pos = ''NN''\<rparr>, \<lparr>surface = ''i'', pos = ''NN''\<rparr>]\<rparr>, None) \<and>
   (None :: error option) = None"
  using sample_run_Hi NewDocument_error_nil [OF sample_run_Hi] by simp


end
